theory Spec2Isabelle
  imports Main
begin

section \<open>torch/csrc/utils/future.h: the single-assignment result cell\<close>

text \<open>
  The header defines \<^verbatim>\<open>FutureError\<close> and the class template \<^verbatim>\<open>Future<T>\<close>.
  The embedding is sequential: one call runs at a time, so \<^verbatim>\<open>mutex_\<close> has no field
  of its own, and \<^verbatim>\<open>finished_cv_\<close> appears only through the \<^verbatim>\<open>notify_all\<close> it
  receives. Calls that leave the class (a callback, \<^verbatim>\<open>RecordFunction::end\<close>, the
  condition variable) are recorded, in program order, as the events of the call. The
  collaborators are taken to return normally: the exceptions of the model are the two the
  header raises itself, the failed \<^verbatim>\<open>TORCH_CHECK\<close> and \<^verbatim>\<open>throw *error_\<close>.
  The members' names end in an underscore, which Isabelle keeps for its own use, so
  each carries a prime here: \<open>completed_'\<close> is \<^verbatim>\<open>completed_\<close>.
\<close>

subsection \<open>FutureError\<close>

datatype FutureError = FutureError (errorMsg_': string)


subsection \<open>Exceptions, outcomes and events\<close>

datatype exn =
    c10_Error \<comment> \<open>a failed \<^verbatim>\<open>TORCH_CHECK\<close>\<close>
  | Thrown FutureError \<comment> \<open>\<^verbatim>\<open>throw *error_\<close>\<close>

datatype 'x outcome =
    Returns 'x
  | Throws exn
  | Blocks \<comment> \<open>the caller stays in \<^verbatim>\<open>finished_cv_.wait\<close>\<close>

datatype ('a, 'c, 'r) event =
    Call 'c 'a "FutureError option" \<comment> \<open>\<^verbatim>\<open>callback(value_, error_)\<close>\<close>
  | End 'r \<comment> \<open>\<^verbatim>\<open>rf_->end()\<close>\<close>
  | NotifyAll \<comment> \<open>\<^verbatim>\<open>finished_cv_.notify_all()\<close>\<close>

subsection \<open>The state of a Future\<close>

text \<open>
  \<open>'a\<close> is \<^verbatim>\<open>T\<close>, \<open>'c\<close> names a \<^verbatim>\<open>Callback\<close> object and \<open>'r\<close> names a
  \<^verbatim>\<open>RecordFunction\<close>; a null \<^verbatim>\<open>shared_ptr\<close> is \<open>None\<close>.
\<close>

record ('a, 'c, 'r) Future =
  completed_' :: bool
  callbacks_' :: "'c list"
  value_' :: 'a
  error_' :: "FutureError option"
  rf_' :: "'r option"

text \<open>
  \<^verbatim>\<open>Future() = default\<close>. The member \<^verbatim>\<open>T value_\<close> is default-initialized; what that
  leaves in the slot depends on \<^verbatim>\<open>T\<close> and is the parameter \<open>dflt\<close>.
\<close>

definition Future_default :: "'a \<Rightarrow> ('a, 'c, 'r) Future" where
  "Future_default dflt =
     \<lparr>completed_' = False, callbacks_' = [], value_' = dflt, error_' = None, rf_' = None\<rparr>"

text \<open>\<^verbatim>\<open>Future(T value)\<close>\<close>

definition Future_value :: "'a \<Rightarrow> ('a, 'c, 'r) Future" where
  "Future_value v =
     \<lparr>completed_' = True, callbacks_' = [], value_' = v, error_' = None, rf_' = None\<rparr>"

subsection \<open>The const queries\<close>

definition completed :: "('a, 'c, 'r) Future \<Rightarrow> bool" where
  "completed f = completed_' f"

definition hasError :: "('a, 'c, 'r) Future \<Rightarrow> bool" where
  "hasError f = (case error_' f of Some e \<Rightarrow> True | None \<Rightarrow> False)"


subsection \<open>Waiting\<close>

definition wait :: "('a, 'c, 'r) Future \<Rightarrow> 'a outcome" where
  "wait f =
     (if \<not> completed_' f then Blocks
      else case error_' f of
             Some e \<Rightarrow> Throws (Thrown e)
           | None \<Rightarrow> Returns (value_' f))"

definition waitNoThrow :: "('a, 'c, 'r) Future \<Rightarrow> 'a outcome" where
  "waitNoThrow f = (if \<not> completed_' f then Blocks else Returns (value_' f))"

text \<open>
  \<^verbatim>\<open>moveValue() &&\<close> takes the lock and returns \<^verbatim>\<open>std::move(value_)\<close>, an rvalue
  reference to the slot. The caller may move out of it; \<open>moved_from\<close> is what that
  leaves in the slot (the old value when the caller moves nothing).
\<close>

definition moveValue :: "'a \<Rightarrow> ('a, 'c, 'r) Future \<Rightarrow> 'a outcome \<times> ('a, 'c, 'r) Future" where
  "moveValue moved_from f = (Returns (value_' f), f\<lparr>value_' := moved_from\<rparr>)"

subsection \<open>Completion\<close>

text \<open>The loop \<^verbatim>\<open>for (auto& callback : cbs) callback(value_, error_);\<close>\<close>

fun run_callbacks ::
  "'c list \<Rightarrow> 'a \<Rightarrow> FutureError option \<Rightarrow> ('a, 'c, 'r) event list" where
  "run_callbacks [] v e = []"
| "run_callbacks (callback # cbs) v e = Call callback v e # run_callbacks cbs v e"

text \<open>
  A completing call yields its outcome, the state it leaves and the events it caused.
\<close>

definition markCompleted ::
  "'a \<Rightarrow> ('a, 'c, 'r) Future \<Rightarrow>
     unit outcome \<times> ('a, 'c, 'r) Future \<times> ('a, 'c, 'r) event list" where
  "markCompleted v f =
     (if completed f then (Throws c10_Error, f, [])
      else
        let f1 = f\<lparr>value_' := v\<rparr>;
            f2 = f1\<lparr>completed_' := True\<rparr>;
            cbs = callbacks_' f2;
            f3 = f2\<lparr>callbacks_' := []\<rparr>
        in (Returns (), f3,
            (case rf_' f3 of Some rf \<Rightarrow> [End rf] | None \<Rightarrow> [])
            @ run_callbacks cbs (value_' f3) (error_' f3)
            @ [NotifyAll]))"

definition setError ::
  "string \<Rightarrow> ('a, 'c, 'r) Future \<Rightarrow>
     unit outcome \<times> ('a, 'c, 'r) Future \<times> ('a, 'c, 'r) event list" where
  "setError errorMsg f =
     (if completed f then (Throws c10_Error, f, [])
      else
        let f1 = f\<lparr>error_' := Some (FutureError errorMsg)\<rparr>;
            f2 = f1\<lparr>completed_' := True\<rparr>;
            cbs = callbacks_' f2;
            f3 = f2\<lparr>callbacks_' := []\<rparr>
        in (Returns (), f3,
            run_callbacks cbs (value_' f3) (error_' f3) @ [NotifyAll]))"

subsection \<open>Registration\<close>

definition addCallback ::
  "'c \<Rightarrow> ('a, 'c, 'r) Future \<Rightarrow>
     unit outcome \<times> ('a, 'c, 'r) Future \<times> ('a, 'c, 'r) event list" where
  "addCallback callback f =
     (if completed f then (Returns (), f, [Call callback (value_' f) (error_' f)])
      else (Returns (), f\<lparr>callbacks_' := callbacks_' f @ [callback]\<rparr>, []))"

definition attachRecordFunction ::
  "'r option \<Rightarrow> ('a, 'c, 'r) Future \<Rightarrow> ('a, 'c, 'r) Future" where
  "attachRecordFunction rf f = f\<lparr>rf_' := rf\<rparr>"

subsection \<open>Sequences of calls\<close>

datatype ('a, 'c, 'r) call =
    Wait
  | WaitNoThrow
  | MoveValue 'a
  | MarkCompleted 'a
  | SetError string
  | Completed
  | HasError
  | GetError
  | AddCallback 'c
  | AttachRecordFunction "'r option"

text \<open>The state a call leaves behind, whatever its outcome.\<close>

fun step :: "('a, 'c, 'r) call \<Rightarrow> ('a, 'c, 'r) Future \<Rightarrow> ('a, 'c, 'r) Future" where
  "step Wait f = f"
| "step WaitNoThrow f = f"
| "step (MoveValue m) f = snd (moveValue m f)"
| "step (MarkCompleted v) f = fst (snd (markCompleted v f))"
| "step (SetError msg) f = fst (snd (setError msg f))"
| "step Completed f = f"
| "step HasError f = f"
| "step GetError f = f"
| "step (AddCallback c) f = fst (snd (addCallback c f))"
| "step (AttachRecordFunction rf) f = attachRecordFunction rf f"

fun run :: "('a, 'c, 'r) call list \<Rightarrow> ('a, 'c, 'r) Future \<Rightarrow> ('a, 'c, 'r) Future" where
  "run [] f = f"
| "run (c # cs) f = run cs (step c f)"

text \<open>The callback invocations among the events, in order.\<close>

fun calls :: "('a, 'c, 'r) event list \<Rightarrow> ('c \<times> 'a \<times> FutureError option) list" where
  "calls [] = []"
| "calls (Call c v e # es) = (c, v, e) # calls es"
| "calls (End r # es) = calls es"
| "calls (NotifyAll # es) = calls es"

text \<open>How often \<^verbatim>\<open>end()\<close> was called on the recorder \<open>r\<close>.\<close>

fun ends :: "'r \<Rightarrow> ('a, 'c, 'r) event list \<Rightarrow> nat" where
  "ends r [] = 0"
| "ends r (End r' # es) = (if r' = r then Suc (ends r es) else ends r es)"
| "ends r (Call c v e # es) = ends r es"
| "ends r (NotifyAll # es) = ends r es"

text \<open>The callbacks a sequence of calls hands to \<open>addCallback\<close>, in order.\<close>

fun registered :: "('a, 'c, 'r) call list \<Rightarrow> 'c list" where
  "registered [] = []"
| "registered (AddCallback c # cs) = c # registered cs"
| "registered (x # cs) = registered cs"

fun is_MoveValue :: "('a, 'c, 'r) call \<Rightarrow> bool" where
  "is_MoveValue (MoveValue m) = True"
| "is_MoveValue c = False"

fun no_MoveValue :: "('a, 'c, 'r) call list \<Rightarrow> bool" where
  "no_MoveValue [] = True"
| "no_MoveValue (c # cs) = (\<not> is_MoveValue c \<and> no_MoveValue cs)"

section \<open>Properties\<close>

subsection \<open>Helper facts\<close>

lemma run_append: "run (xs @ ys) f = run ys (run xs f)"
  by (induction xs arbitrary: f) simp_all

lemma calls_append: "calls (xs @ ys) = calls xs @ calls ys"
  by (induction xs rule: calls.induct) simp_all

lemma calls_run_callbacks: "calls (run_callbacks cbs v e) = map (\<lambda>c. (c, v, e)) cbs"
  by (induction cbs) simp_all

lemma step_keeps_completed: "completed_' f \<Longrightarrow> completed_' (step c f)"
  by (cases c) (simp_all add: moveValue_def markCompleted_def setError_def addCallback_def
      attachRecordFunction_def completed_def)

lemma run_keeps_completed: "completed_' f \<Longrightarrow> completed_' (run cs f)"
  by (induction cs arbitrary: f) (simp_all add: step_keeps_completed)

lemma step_keeps_error: "completed_' f \<Longrightarrow> error_' (step c f) = error_' f"
  by (cases c) (simp_all add: moveValue_def markCompleted_def setError_def addCallback_def
      attachRecordFunction_def completed_def)

lemma run_keeps_error: "completed_' f \<Longrightarrow> error_' (run cs f) = error_' f"
  by (induction cs arbitrary: f) (simp_all add: step_keeps_error step_keeps_completed)

lemma step_keeps_value:
  "completed_' f \<Longrightarrow> \<not> is_MoveValue c \<Longrightarrow> value_' (step c f) = value_' f"
  by (cases c) (simp_all add: markCompleted_def setError_def addCallback_def
      attachRecordFunction_def completed_def)

lemma run_keeps_value:
  "completed_' f \<Longrightarrow> no_MoveValue cs \<Longrightarrow> value_' (run cs f) = value_' f"
  by (induction cs arbitrary: f) (simp_all add: step_keeps_value step_keeps_completed)

lemma step_no_error_before_completion:
  "completed_' f \<or> error_' f = None \<Longrightarrow> completed_' (step c f) \<or> error_' (step c f) = None"
  by (cases c) (auto simp add: moveValue_def markCompleted_def setError_def addCallback_def
      attachRecordFunction_def completed_def Let_def)

lemma run_no_error_before_completion:
  "completed_' f \<or> error_' f = None \<Longrightarrow> completed_' (run cs f) \<or> error_' (run cs f) = None"
proof (induction cs arbitrary: f)
  case Nil
  then show ?case by simp
next
  case (Cons c cs)
  from Cons.prems have "completed_' (step c f) \<or> error_' (step c f) = None"
    by (rule step_no_error_before_completion)
  then show ?case using Cons.IH by simp
qed

lemma fresh_no_error:
  "\<not> completed_' (run cs (Future_default d)) \<Longrightarrow> error_' (run cs (Future_default d)) = None"
  using run_no_error_before_completion [of "Future_default d" cs]
  by (simp add: Future_default_def)

lemma step_value_before_completion:
  "\<not> is_MoveValue c \<Longrightarrow> \<not> completed_' (step c f) \<Longrightarrow> value_' (step c f) = value_' f"
  by (cases c) (auto simp add: markCompleted_def setError_def addCallback_def
      attachRecordFunction_def completed_def Let_def split: if_splits)

lemma run_value_before_completion:
  "no_MoveValue cs \<Longrightarrow> \<not> completed_' (run cs f) \<Longrightarrow> value_' (run cs f) = value_' f"
proof (induction cs arbitrary: f)
  case Nil
  then show ?case by simp
next
  case (Cons c cs)
  have nc: "\<not> completed_' (step c f)"
    using Cons.prems(2) run_keeps_completed [of "step c f" cs] by auto
  have "value_' (run cs (step c f)) = value_' (step c f)"
    using Cons.IH [of "step c f"] Cons.prems by simp
  also have "\<dots> = value_' f"
    using step_value_before_completion [of c f] Cons.prems(1) nc by simp
  finally show ?case by simp
qed

lemma step_queue_before_completion:
  "\<not> completed_' (step c f) \<Longrightarrow> callbacks_' (step c f) = callbacks_' f @ registered [c]"
  by (cases c) (auto simp add: moveValue_def markCompleted_def setError_def addCallback_def
      attachRecordFunction_def completed_def Let_def split: if_splits)

lemma registered_Cons: "registered (c # cs) = registered [c] @ registered cs"
  by (cases c) simp_all

lemma run_queue_before_completion:
  "\<not> completed_' (run cs f) \<Longrightarrow> callbacks_' (run cs f) = callbacks_' f @ registered cs"
proof (induction cs arbitrary: f)
  case Nil
  then show ?case by simp
next
  case (Cons c cs)
  have nc: "\<not> completed_' (step c f)"
    using Cons.prems run_keeps_completed [of "step c f" cs] by auto
  have "callbacks_' (run cs (step c f)) = callbacks_' (step c f) @ registered cs"
    using Cons.IH [of "step c f"] Cons.prems by simp
  also have "\<dots> = (callbacks_' f @ registered [c]) @ registered cs"
    using step_queue_before_completion [OF nc] by simp
  also have "\<dots> = callbacks_' f @ registered (c # cs)"
    using registered_Cons [of c cs] by simp
  finally show ?case by simp
qed

lemma calls_completion_events:
  "calls ((case r of Some rf \<Rightarrow> [End rf] | None \<Rightarrow> []) @ run_callbacks cbs v e @ [NotifyAll])
     = map (\<lambda>c. (c, v, e)) cbs"
  by (cases r) (simp_all add: calls_append calls_run_callbacks)

lemma ends_append: "ends r (xs @ ys) = ends r xs + ends r ys"
  by (induction r xs rule: ends.induct) simp_all

lemma ends_run_callbacks: "ends r (run_callbacks cbs v e) = 0"
  by (induction cbs) simp_all

lemma markCompleted_ends_once:
  "\<not> completed f \<Longrightarrow> rf_' f = Some r \<Longrightarrow> ends r (snd (snd (markCompleted v f))) = 1"
  by (simp add: markCompleted_def ends_append ends_run_callbacks)

lemma setError_never_ends: "ends r (snd (snd (setError msg f))) = 0"
  by (simp add: setError_def ends_append ends_run_callbacks)




text \<open>
  C2. Take a future built by the default constructor and any history of calls that
  leaves it not completed. Completing it, by \<open>markCompleted\<close> or by \<open>setError\<close>,
  returns normally and invokes exactly the callbacks the history registered with
  \<open>addCallback\<close>: one invocation per registration, in the order of registration, each
  with the value and the error the completed future holds. The queue is empty afterwards.
\<close>

theorem completion_runs_callbacks_in_order:
  fixes hist :: "('a, 'c, 'r) call list"
  assumes "f = run hist (Future_default d)" and "\<not> completed f"
  shows "(case markCompleted v f of
            (out, g, tr) \<Rightarrow>
              out = Returns () \<and>
              calls tr = map (\<lambda>c. (c, v, None)) (registered hist) \<and>
              value_' g = v \<and> error_' g = None \<and>
              callbacks_' g = []) \<and>
         (case setError msg f of
            (out, g, tr) \<Rightarrow>
              out = Returns () \<and>
              calls tr = map (\<lambda>c. (c, value_' f, Some (FutureError msg))) (registered hist) \<and>
              value_' g = value_' f \<and> error_' g = Some (FutureError msg) \<and>
              callbacks_' g = [])"
proof -
  from assms have nc: "\<not> completed_' f" by (simp add: completed_def)
  have "callbacks_' f = callbacks_' (Future_default d :: ('a, 'c, 'r) Future) @ registered hist"
    using nc unfolding assms(1) by (rule run_queue_before_completion)
  then have q: "callbacks_' f = registered hist"
    by (simp add: Future_default_def)
  have e: "error_' f = None"
    using nc fresh_no_error [of hist d] by (simp add: assms(1))
  have s: "calls (run_callbacks cbs x y @ [NotifyAll]) = map (\<lambda>c. (c, x, y)) cbs"
    for cbs :: "'c list" and x :: 'a and y
    using calls_completion_events [of None cbs x y] by simp
  show ?thesis
    using nc q e
    by (simp add: markCompleted_def setError_def completed_def calls_completion_events s)
qed

theorem completion_runs_callbacks_in_order_witness:
  "\<not> completed (run [AddCallback ''c1'', AttachRecordFunction (Some 5), AddCallback ''c2'',
                     Wait, AddCallback ''c3'']
                 (Future_default (0::nat) :: (nat, string, nat) Future)) \<and>
   markCompleted 7
       (run [AddCallback ''c1'', AttachRecordFunction (Some 5), AddCallback ''c2'',
             Wait, AddCallback ''c3'']
            (Future_default (0::nat) :: (nat, string, nat) Future))
     = (Returns (),
        \<lparr>completed_' = True, callbacks_' = [], value_' = 7, error_' = None, rf_' = Some 5\<rparr>,
        [End 5, Call ''c1'' 7 None, Call ''c2'' 7 None, Call ''c3'' 7 None, NotifyAll]) \<and>
   calls (snd (snd (markCompleted 7
       (run [AddCallback ''c1'', AttachRecordFunction (Some 5), AddCallback ''c2'',
             Wait, AddCallback ''c3'']
            (Future_default (0::nat) :: (nat, string, nat) Future)))))
     = [(''c1'', 7, None), (''c2'', 7, None), (''c3'', 7, None)] \<and>
   calls (snd (snd (setError ''boom''
       (run [AddCallback ''c1'', AttachRecordFunction (Some 5), AddCallback ''c2'',
             Wait, AddCallback ''c3'']
            (Future_default (0::nat) :: (nat, string, nat) Future)))))
     = [(''c1'', 0, Some (FutureError ''boom'')), (''c2'', 0, Some (FutureError ''boom'')),
        (''c3'', 0, Some (FutureError ''boom''))]"
proof -
  let ?h = "[AddCallback ''c1'', AttachRecordFunction (Some 5), AddCallback ''c2'',
             Wait, AddCallback ''c3''] :: (nat, string, nat) call list"
  let ?f = "run ?h (Future_default (0::nat))"
  have f: "?f = \<lparr>completed_' = False, callbacks_' = [''c1'', ''c2'', ''c3''], value_' = 0,
                 error_' = None, rf_' = Some 5\<rparr>"
    by (simp add: addCallback_def attachRecordFunction_def completed_def Future_default_def)
  have h: "\<not> completed ?f"
    unfolding f by (simp add: completed_def)
  have m: "markCompleted 7 ?f = (Returns (),
        \<lparr>completed_' = True, callbacks_' = [], value_' = 7, error_' = None, rf_' = Some 5\<rparr>,
        [End 5, Call ''c1'' 7 None, Call ''c2'' 7 None, Call ''c3'' 7 None, NotifyAll])"
    unfolding f by (simp add: markCompleted_def completed_def)
  have v: "value_' ?f = 0"
    unfolding f by simp
  have r: "registered ?h = [''c1'', ''c2'', ''c3'']"
    by simp
  from completion_runs_callbacks_in_order
    [where f = ?f and hist = ?h and d = 0 and v = 7 and msg = "''boom''", OF refl h]
  have "calls (snd (snd (markCompleted 7 ?f)))
          = [(''c1'', 7, None), (''c2'', 7, None), (''c3'', 7, None)] \<and>
        calls (snd (snd (setError ''boom'' ?f)))
          = [(''c1'', 0, Some (FutureError ''boom'')), (''c2'', 0, Some (FutureError ''boom'')),
             (''c3'', 0, Some (FutureError ''boom''))]"
    unfolding v r by (auto split: prod.splits)
  with h m show ?thesis by blast
qed

text \<open>
  C3. On a completed future \<open>addCallback c\<close> invokes c once, inside the call, with
  the current value and error, and leaves the future as it was, queue included. On a
  future that is not completed it appends c to the queue and invokes nothing.
\<close>

theorem addCallback_dispatch:
  "(completed f \<longrightarrow>
      addCallback c f = (Returns (), f, [Call c (value_' f) (error_' f)])) \<and>
   (\<not> completed f \<longrightarrow>
      addCallback c f = (Returns (), f\<lparr>callbacks_' := callbacks_' f @ [c]\<rparr>, []))"
  by (simp add: addCallback_def)

theorem addCallback_dispatch_witness:
  "completed (fst (snd (setError ''boom'' (Future_default (0::nat) :: (nat, string, nat) Future)))) \<and>
   addCallback ''c'' (fst (snd (setError ''boom'' (Future_default (0::nat) :: (nat, string, nat) Future))))
     = (Returns (), fst (snd (setError ''boom'' (Future_default 0))),
        [Call ''c'' 0 (Some (FutureError ''boom''))]) \<and>
   \<not> completed (Future_default (0::nat) :: (nat, string, nat) Future) \<and>
   addCallback ''c'' (Future_default (0::nat) :: (nat, string, nat) Future)
     = (Returns (), Future_default 0\<lparr>callbacks_' := [''c'']\<rparr>, [])"
proof -
  let ?f = "Future_default (0::nat) :: (nat, string, nat) Future"
  let ?g = "fst (snd (setError ''boom'' ?f))"
  have h: "\<not> completed ?f"
    by (simp add: completed_def Future_default_def)
  have k: "completed ?g"
    by (simp add: completed_def setError_def Future_default_def)
  have v: "value_' ?g = 0" "error_' ?g = Some (FutureError ''boom'')" "callbacks_' ?f = []"
    by (simp_all add: setError_def completed_def Future_default_def)
  from addCallback_dispatch [of ?g "''c''"] k
  have a: "addCallback ''c'' ?g = (Returns (), ?g, [Call ''c'' 0 (Some (FutureError ''boom''))])"
    unfolding v by blast
  from addCallback_dispatch [of ?f "''c''"] h
  have b: "addCallback ''c'' ?f = (Returns (), ?f\<lparr>callbacks_' := [''c'']\<rparr>, [])"
    unfolding v by simp
  from h k a b show ?thesis by blast
qed

text \<open>
  C4. On a completed future both \<open>markCompleted\<close> and \<open>setError\<close> fail their
  \<^verbatim>\<open>TORCH_CHECK\<close> (the double-completion error). A future is completed when it
  was constructed from a value, and after a \<open>markCompleted\<close> or a \<open>setError\<close> on a
  future that was not.
\<close>

theorem double_completion_fails:
  fixes f g :: "('a, 'c, 'r) Future"
  shows "(completed f \<longrightarrow>
            fst (markCompleted v f) = Throws c10_Error \<and>
            fst (setError msg f) = Throws c10_Error) \<and>
         completed (Future_value u :: ('a, 'c, 'r) Future) \<and>
         (\<not> completed g \<longrightarrow>
            completed (fst (snd (markCompleted u g))) \<and>
            completed (fst (snd (setError other g))))"
  by (simp add: markCompleted_def setError_def completed_def Future_value_def)

theorem double_completion_fails_witness:
  "\<not> completed (Future_default (0::nat) :: (nat, string, nat) Future) \<and>
   completed (fst (snd (markCompleted 1 (Future_default (0::nat) :: (nat, string, nat) Future)))) \<and>
   fst (setError ''late''
     (fst (snd (markCompleted 1 (Future_default (0::nat) :: (nat, string, nat) Future)))))
     = Throws c10_Error \<and>
   fst (markCompleted 2
     (fst (snd (markCompleted 1 (Future_default (0::nat) :: (nat, string, nat) Future)))))
     = Throws c10_Error"
proof -
  let ?g = "Future_default (0::nat) :: (nat, string, nat) Future"
  let ?f = "fst (snd (markCompleted 1 ?g))"
  have h: "\<not> completed ?g"
    by (simp add: completed_def Future_default_def)
  note t = double_completion_fails
    [where f = ?f and g = ?g and v = 2 and msg = "''late''" and u = 1 and other = "''x''"]
  from t h have c: "completed ?f" by blast
  from t c have "fst (setError ''late'' ?f) = Throws c10_Error \<and>
        fst (markCompleted 2 ?f) = Throws c10_Error"
    by blast
  with h c show ?thesis by blast
qed

text \<open>
  C5. Once \<open>completed()\<close> is true after some history of calls, it is true after
  every longer history: no call puts the flag back to false.
\<close>

theorem completed_monotone:
  "completed (run hist f) \<Longrightarrow> completed (run (hist @ later) f)"
  by (simp add: completed_def run_append run_keeps_completed)

theorem completed_monotone_witness:
  "completed (run [AddCallback ''c'', MarkCompleted 1]
       (Future_default (0::nat) :: (nat, string, nat) Future)) \<and>
   completed (run ([AddCallback ''c'', MarkCompleted 1] @
                   [MoveValue 3, SetError ''x'', MarkCompleted 4, AttachRecordFunction None])
       (Future_default (0::nat) :: (nat, string, nat) Future))"
proof -
  let ?f = "Future_default (0::nat) :: (nat, string, nat) Future"
  have h: "completed (run [AddCallback ''c'', MarkCompleted 1] ?f)"
    by (simp add: completed_def addCallback_def markCompleted_def Future_default_def)
  from completed_monotone [OF h] h show ?thesis by blast
qed

text \<open>
  C6 asks that completing a future with an attached \<^verbatim>\<open>RecordFunction\<close> calls its
  \<^verbatim>\<open>end()\<close> once, on either path. On a default-constructed future with recorder 5
  attached, \<open>setError\<close> completes the future, notifies the waiters and never calls
  \<^verbatim>\<open>end()\<close>, while \<open>markCompleted\<close> on the same future calls it first.
\<close>

theorem setError_skips_end:
  "rf_' (attachRecordFunction (Some (5::nat))
          (Future_default (0::nat) :: (nat, string, nat) Future)) = Some 5 \<and>
   setError ''boom''
       (attachRecordFunction (Some (5::nat)) (Future_default (0::nat) :: (nat, string, nat) Future))
     = (Returns (),
        \<lparr>completed_' = True, callbacks_' = [], value_' = 0,
         error_' = Some (FutureError ''boom''), rf_' = Some 5\<rparr>,
        [NotifyAll]) \<and>
   ends 5 (snd (snd (setError ''boom''
       (attachRecordFunction (Some (5::nat))
          (Future_default (0::nat) :: (nat, string, nat) Future))))) = 0 \<and>
   snd (snd (markCompleted 1
       (attachRecordFunction (Some (5::nat)) (Future_default (0::nat) :: (nat, string, nat) Future))))
     = [End 5, NotifyAll]"
  by (simp add: setError_def markCompleted_def attachRecordFunction_def Future_default_def
      completed_def)

text \<open>
  C7. On a completed future \<open>waitNoThrow\<close> returns the value slot, error or not.
  When a default-constructed future is completed by \<open>setError\<close>, and no call before
  or after moved the value out, the future has an error and \<open>waitNoThrow\<close> returns
  what default initialization left in the slot.
\<close>

theorem waitNoThrow_after_completion:
  fixes f :: "('a, 'c, 'r) Future" and before after :: "('a, 'c, 'r) call list"
  shows "(completed f \<longrightarrow> waitNoThrow f = Returns (value_' f)) \<and>
         (no_MoveValue before \<and> \<not> completed (run before (Future_default d)) \<and>
          no_MoveValue after \<longrightarrow>
            (let g = run after (fst (snd (setError msg (run before (Future_default d)))))
             in completed g \<and> hasError g \<and> waitNoThrow g = Returns d))"
proof -
  have first: "completed f \<longrightarrow> waitNoThrow f = Returns (value_' f)"
    by (simp add: waitNoThrow_def completed_def)
  have second: "completed g \<and> hasError g \<and> waitNoThrow g = Returns d"
    if nb: "no_MoveValue before" and nc: "\<not> completed (run before (Future_default d))"
      and na: "no_MoveValue after"
      and g: "g = run after (fst (snd (setError msg (run before (Future_default d)))))"
    for g :: "('a, 'c, 'r) Future"
  proof -
    let ?f = "run before (Future_default d)"
    let ?e = "fst (snd (setError msg ?f))"
    from nc have nc': "\<not> completed_' ?f" by (simp add: completed_def)
    have "value_' ?f = value_' (Future_default d :: ('a, 'c, 'r) Future)"
      using nb nc' by (rule run_value_before_completion)
    then have vf: "value_' ?f = d" by (simp add: Future_default_def)
    have e: "completed_' ?e" "error_' ?e = Some (FutureError msg)" "value_' ?e = d"
      using nc' vf by (simp_all add: setError_def completed_def)
    have "completed_' g" "error_' g = Some (FutureError msg)" "value_' g = d"
      using e na unfolding g
      by (simp_all add: run_keeps_completed run_keeps_error run_keeps_value)
    then show ?thesis
      by (simp add: completed_def hasError_def waitNoThrow_def)
  qed
  from first second show ?thesis unfolding Let_def by blast
qed

theorem waitNoThrow_after_completion_witness:
  "no_MoveValue [AddCallback ''c'', Wait :: (nat, string, nat) call] \<and>
   \<not> completed (run [AddCallback ''c'', Wait] (Future_default (0::nat) :: (nat, string, nat) Future)) \<and>
   no_MoveValue [HasError, MarkCompleted 3 :: (nat, string, nat) call] \<and>
   completed (run [HasError, MarkCompleted 3] (fst (snd (setError ''boom''
      (run [AddCallback ''c'', Wait] (Future_default (0::nat) :: (nat, string, nat) Future)))))) \<and>
   waitNoThrow (run [HasError, MarkCompleted 3] (fst (snd (setError ''boom''
      (run [AddCallback ''c'', Wait] (Future_default (0::nat) :: (nat, string, nat) Future))))))
     = Returns 0"
proof -
  let ?b = "[AddCallback ''c'', Wait] :: (nat, string, nat) call list"
  let ?a = "[HasError, MarkCompleted 3] :: (nat, string, nat) call list"
  let ?f = "run ?b (Future_default (0::nat)) :: (nat, string, nat) Future"
  let ?g = "run ?a (fst (snd (setError ''boom'' ?f)))"
  have nb: "no_MoveValue ?b" and na: "no_MoveValue ?a" by simp_all
  have nc: "\<not> completed ?f"
    by (simp add: completed_def addCallback_def Future_default_def)
  from waitNoThrow_after_completion
    [where f = ?g and before = ?b and d = 0 and after = ?a and msg = "''boom''"] nb nc na
  have c: "completed ?g" and w: "waitNoThrow ?g = Returns 0"
    unfolding Let_def by blast+
  from nb nc na c w show ?thesis by blast
qed

text \<open>
  C8. A future constructed from a value v is completed, has no error, \<open>wait\<close> returns v
  without raising, and \<open>addCallback\<close> invokes the callback in place with (v, no error),
  once, storing nothing.
\<close>

theorem Future_value_precompleted:
  "completed (Future_value v) \<and>
   \<not> hasError (Future_value v) \<and>
   wait (Future_value v) = Returns v \<and>
   addCallback c (Future_value v) = (Returns (), Future_value v, [Call c v None])"
  by (simp add: completed_def hasError_def wait_def addCallback_def Future_value_def)

text \<open>
  C9. A completing call on a completed future throws and does nothing else: the state it
  leaves is the state it found (flag, value, error, queue and recorder), and it causes no
  event, neither a callback, nor \<^verbatim>\<open>end()\<close>, nor \<^verbatim>\<open>notify_all()\<close>.
\<close>

theorem failed_completion_changes_nothing:
  "completed f \<Longrightarrow>
     markCompleted v f = (Throws c10_Error, f, []) \<and>
     setError msg f = (Throws c10_Error, f, [])"
  by (simp add: markCompleted_def setError_def)

theorem failed_completion_changes_nothing_witness:
  "completed (Future_value (7::nat) :: (nat, string, nat) Future) \<and>
   markCompleted 8 (Future_value (7::nat) :: (nat, string, nat) Future)
     = (Throws c10_Error, Future_value 7, []) \<and>
   setError ''boom'' (Future_value (7::nat) :: (nat, string, nat) Future)
     = (Throws c10_Error, Future_value 7, [])"
proof -
  have h: "completed (Future_value (7::nat) :: (nat, string, nat) Future)"
    by (simp add: completed_def Future_value_def)
  from failed_completion_changes_nothing [OF h] h show ?thesis by blast
qed

text \<open>
  C10. \<open>moveValue\<close> checks nothing: on every future, completed or not, with or
  without an error, it returns what the value slot holds, and leaves the completion flag,
  the error and the callback queue as they were.
\<close>

theorem moveValue_unchecked:
  "fst (moveValue m f) = Returns (value_' f) \<and>
   completed_' (snd (moveValue m f)) = completed_' f \<and>
   error_' (snd (moveValue m f)) = error_' f \<and>
   callbacks_' (snd (moveValue m f)) = callbacks_' f"
  by (simp add: moveValue_def)

end
